theory Spec2Isabelle
  imports Main "HOL-Library.Multiset"
begin

section \<open>Incremental repositioning of highlight spans (plugin gosyntax, Highlight)\<close>

text \<open>
  The highlighter keeps, per syntax layer, a slice of spans. After the editor applied a
  batch of edits, \<^verbatim>\<open>Applied\<close> moves every span of every layer with \<^verbatim>\<open>moveSpan\<close>.

  Offsets and lengths are Go \<^verbatim>\<open>int\<close>s, 64 bits wide, whose sums and differences wrap
  around. They are modelled as integers with the wrap-around written out: \<open>wrap64 x\<close>
  is the value of a 64-bit signed integer after an operation whose exact result is \<open>x\<close>.
  A rune is an \<^verbatim>\<open>int32\<close>; only the lengths of the slices are read here.
\<close>

type_synonym rune = int

record Span =
  Start :: int
  End :: int

record Edit =
  At :: int
  Old :: "rune list"
  New :: "rune list"

record SyntaxLayer =
  Spans :: "Span list"

definition wrap64 :: "int \<Rightarrow> int" where
  "wrap64 x = (x + 2 ^ 63) mod 2 ^ 64 - 2 ^ 63"

text \<open>
  \<^verbatim>\<open>moveSpan\<close>: the loop over the edits is the recursion over the list. The \<^verbatim>\<open>return s\<close>
  of the first guard ends the loop; each \<^verbatim>\<open>continue\<close> is the recursive call on the rest.
\<close>

fun moveSpan :: "Span \<Rightarrow> Edit list \<Rightarrow> Span" where
  "moveSpan s [] = s"
| "moveSpan s (e # edits) =
     (if At e > End s then s
      else
        let delta = wrap64 (int (length (New e)) - int (length (Old e))) in
        if delta = 0 then moveSpan s edits
        else
          let s1 = s\<lparr>End := wrap64 (End s + delta)\<rparr>;
              s2 = (if End s1 < At e then s1\<lparr>End := At e\<rparr> else s1)
          in
          if At e > Start s2 then moveSpan s2 edits
          else
            let s3 = s2\<lparr>Start := wrap64 (Start s2 + delta)\<rparr>;
                s4 = (if Start s3 < At e then s3\<lparr>Start := At e\<rparr> else s3)
            in moveSpan s4 edits)"

definition moveLayer :: "SyntaxLayer \<Rightarrow> Edit list \<Rightarrow> SyntaxLayer" where
  "moveLayer l edits = l\<lparr>Spans := map (\<lambda>s. moveSpan s edits) (Spans l)\<rparr>"

text \<open>\<^verbatim>\<open>Applied\<close> reads the editor's layers, moves each and stores them back.\<close>

definition Applied :: "SyntaxLayer list \<Rightarrow> Edit list \<Rightarrow> SyntaxLayer list" where
  "Applied layers edits = map (\<lambda>l. moveLayer l edits) layers"

text \<open>The effect of one edit that does not end the loop, as the loop body computes it.\<close>

definition editSpan :: "Span \<Rightarrow> Edit \<Rightarrow> Span" where
  "editSpan s e =
     (let delta = wrap64 (int (length (New e)) - int (length (Old e))) in
      if delta = 0 then s
      else
        let s1 = s\<lparr>End := wrap64 (End s + delta)\<rparr>;
            s2 = (if End s1 < At e then s1\<lparr>End := At e\<rparr> else s1)
        in
        if At e > Start s2 then s2
        else
          let s3 = s2\<lparr>Start := wrap64 (Start s2 + delta)\<rparr>
          in (if Start s3 < At e then s3\<lparr>Start := At e\<rparr> else s3))"

definition validSpan :: "Span \<Rightarrow> bool" where
  "validSpan s \<longleftrightarrow> 0 \<le> Start s \<and> Start s \<le> End s"

definition insertion :: "int \<Rightarrow> rune list \<Rightarrow> Edit" where
  "insertion p txt = \<lparr>At = p, Old = [], New = txt\<rparr>"


section \<open>The outline tree (navigator, table of contents)\<close>

text \<open>
  A Go panic (an index out of range, a failed type assertion) is a value of the
  result type, so every function that can panic returns \<open>panic + 'a\<close>.
\<close>

datatype panic = IndexOutOfRange | InterfaceConversion

text \<open>
  The three colours are package-level variables holding fixed RGBA values; only their
  identity matters here. \<open>zeroColor\<close> is the zero value of \<^verbatim>\<open>gxui.Color\<close>, which a
  node created by \<^verbatim>\<open>&Name{}\<close> carries.
\<close>

datatype color = zeroColor | genericColor | nameColor | skippableColor

text \<open>
  The tree nodes. \<^verbatim>\<open>Name\<close> embeds \<^verbatim>\<open>genericTreeNode\<close> and \<^verbatim>\<open>Location\<close>, so it
  has the generic node's fields and methods and a file name and position;
  \<^verbatim>\<open>skippingTreeNode\<close> embeds \<^verbatim>\<open>genericTreeNode\<close> and overrides its methods.
\<close>

datatype treeNode =
    genericTreeNode (name: string) (path: string) (color: color) (children: "treeNode list")
  | Name (name: string) (path: string) (color: color) (children: "treeNode list")
      (filename: string) (pos: int)
  | skippingTreeNode (name: string) (path: string) (color: color) (children: "treeNode list")









text \<open>
  The five methods have value receivers and assign to no field and no element: a call
  yields its answer and leaves the node it is called on, with all its children, as it is
  stored. \<open>invoke\<close> is one call and gives the answer and the node after the call;
  \<open>invokeAll\<close> is the node after a sequence of calls.
\<close>

datatype call = CountCall | ItemCall | ItemIndexCall string | NodeAtCall int | CreateCall




subsection \<open>The parsed declarations the builder reads\<close>

datatype token =
    tok_ILLEGAL | tok_ASSIGN | tok_DEFINE
  | tok_BREAK | tok_CONTINUE | tok_GOTO | tok_FALLTHROUGH
  | tok_IMPORT | tok_CONST | tok_TYPE | tok_VAR

fun token_String :: "token \<Rightarrow> string" where
  "token_String tok_ILLEGAL = ''ILLEGAL''"
| "token_String tok_ASSIGN = ''=''"
| "token_String tok_DEFINE = '':=''"
| "token_String tok_BREAK = ''break''"
| "token_String tok_CONTINUE = ''continue''"
| "token_String tok_GOTO = ''goto''"
| "token_String tok_FALLTHROUGH = ''fallthrough''"
| "token_String tok_IMPORT = ''import''"
| "token_String tok_CONST = ''const''"
| "token_String tok_TYPE = ''type''"
| "token_String tok_VAR = ''var''"

datatype Ident = Ident (NamePos: int) (IdentName: string)

text \<open>
  A receiver type is an identifier, a pointer to a type, or any other expression
  (a parameterised or qualified type, which the parser also accepts).
\<close>

datatype Expr = IdentExpr Ident | StarExpr Expr | OtherExpr

datatype Field = Field (Type: Expr)

datatype Spec = ImportSpec | ValueSpec (Names: "Ident list") | TypeSpec (SpecName: Ident)

text \<open>
  \<^verbatim>\<open>FuncDecl\<close>: the receiver's field list (\<open>None\<close> for a nil \<^verbatim>\<open>Recv\<close>), the name, and
  the position that \<^verbatim>\<open>Pos()\<close> gives.
\<close>

datatype Decl =
    BadDecl
  | GenDecl (Tok: token) (Specs: "Spec list")
  | FuncDecl (Recv: "Field list option") (FuncName: Ident) (FuncPos: int)

record File =
  Decls :: "Decl list"

text \<open>
  \<^verbatim>\<open>Files\<close> is a Go map from file name to file. Ranging over a map visits the entries in
  an order the language leaves open, so the package carries the entries as a list in the
  order the loop meets them, and a property of every order is a property of every list.
\<close>

record Package =
  PkgName :: string
  Files :: "(string \<times> File) list"

subsection \<open>parsePkg\<close>

definition newName :: "string \<Rightarrow> string \<Rightarrow> string \<Rightarrow> int \<Rightarrow> treeNode" where
  "newName nm pth file p = Name nm pth nameColor [] file p"

fun namesOf :: "string \<Rightarrow> string \<Rightarrow> Ident list \<Rightarrow> treeNode list" where
  "namesOf file parentName [] = []"
| "namesOf file parentName (n # ns) =
     newName (IdentName n) (parentName @ ''.'' @ IdentName n) file (NamePos n)
       # namesOf file parentName ns"

fun valueNamesFrom :: "string \<Rightarrow> string \<Rightarrow> Spec list \<Rightarrow> treeNode list" where
  "valueNamesFrom file parentName [] = []"
| "valueNamesFrom file parentName (ValueSpec ns # specs) =
     namesOf file parentName ns @ valueNamesFrom file parentName specs"
| "valueNamesFrom file parentName (_ # specs) = valueNamesFrom file parentName specs"

text \<open>
  The locals of \<^verbatim>\<open>parsePkg\<close>: the slices \<^verbatim>\<open>consts\<close>, \<^verbatim>\<open>vars\<close>, \<^verbatim>\<open>types\<close> and \<^verbatim>\<open>funcs\<close>
  and the map \<^verbatim>\<open>typeMap\<close>. \<^verbatim>\<open>typeMap\<close> and \<^verbatim>\<open>types\<close> hold pointers to \<^verbatim>\<open>Name\<close>
  values, and a method appended through the map must be seen through the slice. So the
  \<^verbatim>\<open>Name\<close> values live in a store, a pointer is an index into it, and \<^verbatim>\<open>&Name{}\<close>
  allocates a fresh cell.
\<close>

record tocBuild =
  constNodes :: "treeNode list"
  varNodes :: "treeNode list"
  store :: "treeNode list"
  typeMap :: "string \<rightharpoonup> nat"
  typeNodes :: "nat list"
  funcNodes :: "treeNode list"

definition emptyName :: treeNode where
  "emptyName = Name [] [] zeroColor [] [] 0"

text \<open>\<^verbatim>\<open>typ, ok := typeMap[n]; if !ok { typ = &Name{}; typeMap[n] = typ }\<close>\<close>

definition lookupType :: "string \<Rightarrow> tocBuild \<Rightarrow> nat \<times> tocBuild" where
  "lookupType typeName b =
     (case typeMap b typeName of
        Some typ \<Rightarrow> (typ, b)
      | None \<Rightarrow>
          let typ = length (store b)
          in (typ, b\<lparr>store := store b @ [emptyName], typeMap := (typeMap b)(typeName \<mapsto> typ)\<rparr>))"

text \<open>The five assignments to the fields of \<^verbatim>\<open>typ\<close>; its children stay.\<close>

definition setDecl :: "string \<Rightarrow> string \<Rightarrow> string \<Rightarrow> int \<Rightarrow> treeNode \<Rightarrow> treeNode" where
  "setDecl nm pth file p typ = Name nm pth nameColor (children typ) file p"

definition setPath :: "string \<Rightarrow> treeNode \<Rightarrow> treeNode" where
  "setPath pth nm = Name (name nm) pth (color nm) (children nm) (filename nm) (pos nm)"

definition appendChild :: "treeNode \<Rightarrow> treeNode \<Rightarrow> treeNode" where
  "appendChild typ child =
     Name (name typ) (path typ) (color typ) (children typ @ [child]) (filename typ) (pos typ)"

text \<open>The body of the inner loop: one declaration of one file.\<close>

definition parseDecl :: "string \<Rightarrow> string \<Rightarrow> Decl \<Rightarrow> tocBuild \<Rightarrow> panic + tocBuild" where
  "parseDecl pkgName file decl b =
     (case decl of
        GenDecl tok specs \<Rightarrow>
          if token_String tok = ''const'' then
            Inr (b\<lparr>constNodes := constNodes b @ valueNamesFrom file (pkgName @ ''.constants'') specs\<rparr>)
          else if token_String tok = ''var'' then
            Inr (b\<lparr>varNodes := varNodes b @ valueNamesFrom file (pkgName @ ''.global vars'') specs\<rparr>)
          else if token_String tok = ''type'' then
            (case specs of
               [] \<Rightarrow> Inl IndexOutOfRange
             | TypeSpec ident # _ \<Rightarrow>
                 let typeName = IdentName ident;
                     (typ, b1) = lookupType typeName b;
                     filled = setDecl typeName (pkgName @ ''.types.'' @ typeName) file
                                (NamePos ident) (store b1 ! typ)
                 in Inr (b1\<lparr>store := (store b1)[typ := filled], typeNodes := typeNodes b1 @ [typ]\<rparr>)
             | _ # _ \<Rightarrow> Inl InterfaceConversion)
          else Inr b
      | FuncDecl recv ident p \<Rightarrow>
          let nm = newName (IdentName ident) (pkgName @ ''.funcs.'' @ IdentName ident) file p in
          (case recv of
             None \<Rightarrow> Inr (b\<lparr>funcNodes := funcNodes b @ [nm]\<rparr>)
           | Some [] \<Rightarrow> Inl IndexOutOfRange
           | Some (field # _) \<Rightarrow>
               let recvTyp = (case Type field of StarExpr x \<Rightarrow> x | t \<Rightarrow> t) in
               (case recvTyp of
                  IdentExpr rid \<Rightarrow>
                    let recvTypeName = IdentName rid;
                        (typ, b1) = lookupType recvTypeName b;
                        nm1 = setPath (pkgName @ ''.types.'' @ recvTypeName @ ''.'' @ name nm) nm
                    in Inr (b1\<lparr>store := (store b1)[typ := appendChild (store b1 ! typ) nm1]\<rparr>)
                | _ \<Rightarrow> Inl InterfaceConversion))
      | BadDecl \<Rightarrow> Inr b)"

fun parseDecls :: "string \<Rightarrow> string \<Rightarrow> Decl list \<Rightarrow> tocBuild \<Rightarrow> panic + tocBuild" where
  "parseDecls pkgName file [] b = Inr b"
| "parseDecls pkgName file (decl # decls) b =
     (case parseDecl pkgName file decl b of
        Inl err \<Rightarrow> Inl err
      | Inr b1 \<Rightarrow> parseDecls pkgName file decls b1)"

fun parseFiles :: "string \<Rightarrow> (string \<times> File) list \<Rightarrow> tocBuild \<Rightarrow> panic + tocBuild" where
  "parseFiles pkgName [] b = Inr b"
| "parseFiles pkgName ((file, f) # fs) b =
     (case parseDecls pkgName file (Decls f) b of
        Inl err \<Rightarrow> Inl err
      | Inr b1 \<Rightarrow> parseFiles pkgName fs b1)"

definition newBuild :: tocBuild where
  "newBuild =
     \<lparr>constNodes = [], varNodes = [], store = [], typeMap = Map.empty, typeNodes = [], funcNodes = []\<rparr>"

text \<open>
  The package node and its four groups, in the source's order. The children of the
  \<^verbatim>\<open>types\<close> group are the pointers of \<^verbatim>\<open>types\<close>, read through the store as it is when
  the loops have finished.
\<close>

definition pkgNode :: "string \<Rightarrow> tocBuild \<Rightarrow> treeNode" where
  "pkgNode pkgName b =
     genericTreeNode pkgName pkgName skippableColor
       [genericTreeNode ''constants'' (pkgName @ ''.constants'') genericColor (constNodes b),
        genericTreeNode ''global vars'' (pkgName @ ''.global vars'') genericColor (varNodes b),
        genericTreeNode ''types'' (pkgName @ ''.types'') genericColor
          (map (\<lambda>typ. store b ! typ) (typeNodes b)),
        genericTreeNode ''funcs'' (pkgName @ ''.funcs'') genericColor (funcNodes b)]"

definition parsePkg :: "Package \<Rightarrow> panic + treeNode" where
  "parsePkg pkg =
     (case parseFiles (PkgName pkg) (Files pkg) newBuild of
        Inl err \<Rightarrow> Inl err
      | Inr b \<Rightarrow> Inr (pkgNode (PkgName pkg) b))"

text \<open>
  \<^verbatim>\<open>TOC\<close> embeds \<^verbatim>\<open>skippingTreeNode\<close>; its own \<^verbatim>\<open>path\<close> field is the directory and
  leaves the embedded node's fields at their zero values. \<^verbatim>\<open>Reload\<close> appends one node per
  package that the directory parse returned, in the order the loop meets them.
\<close>

fun parsePkgs :: "Package list \<Rightarrow> panic + treeNode list" where
  "parsePkgs [] = Inr []"
| "parsePkgs (pkg # pkgs) =
     (case parsePkg pkg of
        Inl err \<Rightarrow> Inl err
      | Inr n \<Rightarrow> (case parsePkgs pkgs of Inl err \<Rightarrow> Inl err | Inr ns \<Rightarrow> Inr (n # ns)))"

definition Reload :: "treeNode \<Rightarrow> Package list \<Rightarrow> panic + treeNode" where
  "Reload t pkgs =
     (case parsePkgs pkgs of
        Inl err \<Rightarrow> Inl err
      | Inr ns \<Rightarrow> Inr (skippingTreeNode (name t) (path t) (color t) (children t @ ns)))"

definition NewTOC :: "Package list \<Rightarrow> panic + treeNode" where
  "NewTOC pkgs = Reload (skippingTreeNode [] [] zeroColor []) pkgs"

text \<open>
  The declarations \<^verbatim>\<open>type T struct{}\<close> and \<^verbatim>\<open>func (r T) M() {}\<close> or, with a pointer
  receiver, \<^verbatim>\<open>func (r *T) M() {}\<close>, as the parser delivers them.
\<close>

definition typeDecl :: "string \<Rightarrow> int \<Rightarrow> Decl" where
  "typeDecl tn p = GenDecl tok_TYPE [TypeSpec (Ident p tn)]"

definition methodDecl :: "bool \<Rightarrow> string \<Rightarrow> int \<Rightarrow> string \<Rightarrow> int \<Rightarrow> int \<Rightarrow> Decl" where
  "methodDecl ptr tn rp mn np p =
     FuncDecl (Some [Field (if ptr then StarExpr (IdentExpr (Ident rp tn)) else IdentExpr (Ident rp tn))])
       (Ident np mn) p"

text \<open>The declarations of a package, each with its file, in the order the two loops meet them.\<close>

definition declsInOrder :: "Package \<Rightarrow> (string \<times> Decl) list" where
  "declsInOrder pkg = concat (map (\<lambda>(file, f). map (Pair file) (Decls f)) (Files pkg))"

text \<open>
  The two loops of \<^verbatim>\<open>parsePkg\<close> as one loop over the declarations in the order they
  are met.
\<close>

fun parseTagged :: "string \<Rightarrow> (string \<times> Decl) list \<Rightarrow> tocBuild \<Rightarrow> panic + tocBuild" where
  "parseTagged pkgName [] b = Inr b"
| "parseTagged pkgName ((file, decl) # rest) b =
     (case parseDecl pkgName file decl b of
        Inl err \<Rightarrow> Inl err
      | Inr b1 \<Rightarrow> parseTagged pkgName rest b1)"







section \<open>The statement walker (plugin gosyntax, syntax)\<close>

text \<open>
  The walker's state: the layers built so far, one list of spans per language construct,
  the depth of the rainbow scope, and the lines written to the process log.
\<close>

datatype construct = Keyword | Bad | Rainbow nat | OtherConstruct string

record Syntax =
  layers :: "construct \<Rightarrow> Span list"
  depth :: nat
  logged :: "string list"

text \<open>
  Modelled from the spec: the helper \<^verbatim>\<open>add\<close> of the walker is not part of the sources at
  hand. A keyword is "recorded as a fixed-length span anchored at the token's known start
  offset": \<^verbatim>\<open>add\<close> appends to the construct's layer the span that starts at the given
  position and has the given length.
\<close>

definition add :: "construct \<Rightarrow> int \<Rightarrow> int \<Rightarrow> Syntax \<Rightarrow> Syntax" where
  "add c p n s = s\<lparr>layers := (layers s)(c := layers s c @ [\<lparr>Start = p, End = p + n\<rparr>])\<rparr>"

text \<open>
  Modelled from the spec: the helper \<^verbatim>\<open>addNode\<close> is not part of the sources at hand. It
  classifies the text of a whole node, from the node's \<^verbatim>\<open>Pos()\<close> to its \<^verbatim>\<open>End()\<close>.
\<close>

definition addNode :: "construct \<Rightarrow> int \<Rightarrow> int \<Rightarrow> Syntax \<Rightarrow> Syntax" where
  "addNode c p e s = add c p (e - p) s"

text \<open>
  Modelled from the spec: the helper \<^verbatim>\<open>rainbowScope\<close> is not part of the sources at hand.
  "Entering a \<^verbatim>\<open>{\<close> increments a depth counter and assigns the pair a paired category
  derived from depth; the scope is closed (depth decremented) on every exit path".
  \<^verbatim>\<open>rainbowScope\<close> is the opening; the function it returns, which the block defers, is
  the closing.
\<close>

definition rainbowScope :: "int \<Rightarrow> int \<Rightarrow> int \<Rightarrow> int \<Rightarrow> Syntax \<Rightarrow> Syntax" where
  "rainbowScope op oplen cl cllen s =
     (add (Rainbow (depth s)) cl cllen (add (Rainbow (depth s)) op oplen s))\<lparr>depth := depth s + 1\<rparr>"

definition rainbowClose :: "Syntax \<Rightarrow> Syntax" where
  "rainbowClose s = s\<lparr>depth := depth s - 1\<rparr>"

text \<open>\<^verbatim>\<open>log.Printf\<close> writes one line to the process log.\<close>

definition logPrintf :: "string \<Rightarrow> Syntax \<Rightarrow> Syntax" where
  "logPrintf msg s = s\<lparr>logged := logged s @ [msg]\<rparr>"

text \<open>
  The walkers for expressions, call expressions, declarations and communication clauses
  are in files that are not at hand. They are parameters of the statement walker: \<open>'e\<close>
  is an expression as the parser delivers it (nil included), \<open>'d\<close> a declaration,
  \<open>'c\<close> a communication clause.
\<close>

record ('e, 'd, 'c) walkers =
  addExpr :: "'e \<Rightarrow> Syntax \<Rightarrow> Syntax"
  addCallExpr :: "'e \<Rightarrow> Syntax \<Rightarrow> Syntax"
  addDecl :: "'d \<Rightarrow> Syntax \<Rightarrow> Syntax"
  addCommClause :: "'c \<Rightarrow> Syntax \<Rightarrow> Syntax"

text \<open>
  The statements, with the fields the walker reads, in the order of \<^verbatim>\<open>go/ast\<close>:
  \<^item> \<open>BadStmt From To\<close>
  \<^item> \<open>AssignStmt Lhs Rhs\<close>
  \<^item> \<open>SwitchStmt Switch Init Tag Body\<close>
  \<^item> \<open>TypeSwitchStmt Switch Init Assign Body\<close>
  \<^item> \<open>CaseClause Case List Body\<close>, the list \<open>None\<close> for the nil list of \<^verbatim>\<open>default\<close>
  \<^item> \<open>SendStmt Chan Value\<close>
  \<^item> \<open>SelectStmt Select Body\<close>
  \<^item> \<open>ReturnStmt Return Results\<close>
  \<^item> \<open>RangeStmt For Key Value TokPos Tok X Body\<close>
  \<^item> \<open>LabeledStmt Stmt\<close>
  \<^item> \<open>IfStmt If Init Cond Body Else\<close>
  \<^item> \<open>GoStmt Go Call\<close>, \<open>DeferStmt Defer Call\<close>
  \<^item> \<open>ForStmt For Init Cond Post Body\<close>
  \<^item> \<open>BranchStmt TokPos Tok\<close>
  \<^item> \<open>UnknownStmt T\<close>: a value of any other type \<open>T\<close> that implements \<^verbatim>\<open>ast.Stmt\<close>.

  A statement that may be nil is a \<open>Stmt option\<close>. The body of a statement is a
  block, which the parser never leaves nil. A position is a \<^verbatim>\<open>token.Pos\<close>, an
  integer.
\<close>

datatype ('e, 'd, 'c) Stmt =
    BadStmt int int
  | AssignStmt "'e list" "'e list"
  | CommClause 'c
  | SwitchStmt int "('e, 'd, 'c) Stmt option" 'e "('e, 'd, 'c) BlockStmt"
  | TypeSwitchStmt int "('e, 'd, 'c) Stmt option" "('e, 'd, 'c) Stmt option" "('e, 'd, 'c) BlockStmt"
  | CaseClause int "'e list option" "('e, 'd, 'c) Stmt list"
  | DeclStmt 'd
  | SendStmt 'e 'e
  | SelectStmt int "('e, 'd, 'c) BlockStmt"
  | ReturnStmt int "'e list"
  | RangeStmt int 'e 'e int token 'e "('e, 'd, 'c) BlockStmt"
  | LabeledStmt "('e, 'd, 'c) Stmt option"
  | IncDecStmt 'e
  | IfStmt int "('e, 'd, 'c) Stmt option" 'e "('e, 'd, 'c) BlockStmt" "('e, 'd, 'c) Stmt option"
  | GoStmt int 'e
  | ForStmt int "('e, 'd, 'c) Stmt option" 'e "('e, 'd, 'c) Stmt option" "('e, 'd, 'c) BlockStmt"
  | ExprStmt 'e
  | EmptyStmt
  | DeferStmt int 'e
  | BranchStmt int token
  | BlockStmt "('e, 'd, 'c) BlockStmt"
  | UnknownStmt string
and ('e, 'd, 'c) BlockStmt =
    Block (Lbrace: int) (Rbrace: int) (StmtList: "('e, 'd, 'c) Stmt list")

text \<open>\<^verbatim>\<open>go/ast\<close>: the end of a block is the position right after its closing brace.\<close>

definition BlockStmt_End :: "('e, 'd, 'c) BlockStmt \<Rightarrow> int" where
  "BlockStmt_End b = Rbrace b + 1"

definition len :: "string \<Rightarrow> int" where
  "len str = int (length str)"

fun addExprs :: "('e, 'd, 'c) walkers \<Rightarrow> 'e list \<Rightarrow> Syntax \<Rightarrow> Syntax" where
  "addExprs w [] s = s"
| "addExprs w (e # es) s = addExprs w es (addExpr w e s)"

definition addBadStmt :: "int \<Rightarrow> int \<Rightarrow> Syntax \<Rightarrow> Syntax" where
  "addBadStmt fromPos toPos s = addNode Bad fromPos toPos s"

definition addAssignStmt :: "('e, 'd, 'c) walkers \<Rightarrow> 'e list \<Rightarrow> 'e list \<Rightarrow> Syntax \<Rightarrow> Syntax" where
  "addAssignStmt w lhs rhs s = addExprs w rhs (addExprs w lhs s)"

definition addSendStmt :: "('e, 'd, 'c) walkers \<Rightarrow> 'e \<Rightarrow> 'e \<Rightarrow> Syntax \<Rightarrow> Syntax" where
  "addSendStmt w ch v s = addExpr w v (addExpr w ch s)"

definition addReturnStmt :: "('e, 'd, 'c) walkers \<Rightarrow> int \<Rightarrow> 'e list \<Rightarrow> Syntax \<Rightarrow> Syntax" where
  "addReturnStmt w ret results s = addExprs w results (add Keyword ret (len ''return'') s)"

definition addGoStmt :: "('e, 'd, 'c) walkers \<Rightarrow> int \<Rightarrow> 'e \<Rightarrow> Syntax \<Rightarrow> Syntax" where
  "addGoStmt w go call s = addCallExpr w call (add Keyword go (len ''go'') s)"

definition addDeferStmt :: "('e, 'd, 'c) walkers \<Rightarrow> int \<Rightarrow> 'e \<Rightarrow> Syntax \<Rightarrow> Syntax" where
  "addDeferStmt w def call s = addCallExpr w call (add Keyword def (len ''defer'') s)"

definition addIncDecStmt :: "('e, 'd, 'c) walkers \<Rightarrow> 'e \<Rightarrow> Syntax \<Rightarrow> Syntax" where
  "addIncDecStmt w x s = addExpr w x s"

definition addExprStmt :: "('e, 'd, 'c) walkers \<Rightarrow> 'e \<Rightarrow> Syntax \<Rightarrow> Syntax" where
  "addExprStmt w x s = addExpr w x s"

definition addBranchStmt :: "int \<Rightarrow> token \<Rightarrow> Syntax \<Rightarrow> Syntax" where
  "addBranchStmt tokpos tok s = add Keyword tokpos (len (token_String tok)) s"

text \<open>
  \<^verbatim>\<open>addStmt\<close> and the walkers that call it back. Each walker of one kind of statement
  takes the fields of its statement. In \<^verbatim>\<open>addRangeStmt\<close> the variable \<^verbatim>\<open>rangeStart\<close>
  keeps its zero value when no case of the switch applies. In \<^verbatim>\<open>addBlockStmt\<close> the
  deferred closing of the scope runs when the loop over the statements has ended.
\<close>

function addStmt :: "('e, 'd, 'c) walkers \<Rightarrow> ('e, 'd, 'c) Stmt option \<Rightarrow> Syntax \<Rightarrow> Syntax"
and addStmts :: "('e, 'd, 'c) walkers \<Rightarrow> ('e, 'd, 'c) Stmt list \<Rightarrow> Syntax \<Rightarrow> Syntax"
and addSwitchStmt :: "('e, 'd, 'c) walkers \<Rightarrow> int \<Rightarrow> ('e, 'd, 'c) Stmt option \<Rightarrow> 'e
      \<Rightarrow> ('e, 'd, 'c) BlockStmt \<Rightarrow> Syntax \<Rightarrow> Syntax"
and addTypeSwitchStmt :: "('e, 'd, 'c) walkers \<Rightarrow> int \<Rightarrow> ('e, 'd, 'c) Stmt option
      \<Rightarrow> ('e, 'd, 'c) Stmt option \<Rightarrow> ('e, 'd, 'c) BlockStmt \<Rightarrow> Syntax \<Rightarrow> Syntax"
and addCaseStmt :: "('e, 'd, 'c) walkers \<Rightarrow> int \<Rightarrow> 'e list option \<Rightarrow> ('e, 'd, 'c) Stmt list
      \<Rightarrow> Syntax \<Rightarrow> Syntax"
and addRangeStmt :: "('e, 'd, 'c) walkers \<Rightarrow> int \<Rightarrow> 'e \<Rightarrow> 'e \<Rightarrow> int \<Rightarrow> token \<Rightarrow> 'e
      \<Rightarrow> ('e, 'd, 'c) BlockStmt \<Rightarrow> Syntax \<Rightarrow> Syntax"
and addIfStmt :: "('e, 'd, 'c) walkers \<Rightarrow> int \<Rightarrow> ('e, 'd, 'c) Stmt option \<Rightarrow> 'e
      \<Rightarrow> ('e, 'd, 'c) BlockStmt \<Rightarrow> ('e, 'd, 'c) Stmt option \<Rightarrow> Syntax \<Rightarrow> Syntax"
and addForStmt :: "('e, 'd, 'c) walkers \<Rightarrow> int \<Rightarrow> ('e, 'd, 'c) Stmt option \<Rightarrow> 'e
      \<Rightarrow> ('e, 'd, 'c) Stmt option \<Rightarrow> ('e, 'd, 'c) BlockStmt \<Rightarrow> Syntax \<Rightarrow> Syntax"
and addLabeledStmt :: "('e, 'd, 'c) walkers \<Rightarrow> ('e, 'd, 'c) Stmt option \<Rightarrow> Syntax \<Rightarrow> Syntax"
and addSelectStmt :: "('e, 'd, 'c) walkers \<Rightarrow> int \<Rightarrow> ('e, 'd, 'c) BlockStmt \<Rightarrow> Syntax \<Rightarrow> Syntax"
and addBlockStmt :: "('e, 'd, 'c) walkers \<Rightarrow> ('e, 'd, 'c) BlockStmt \<Rightarrow> Syntax \<Rightarrow> Syntax"
where
  "addStmt w None s = s"
| "addStmt w (Some (BadStmt fromPos toPos)) s = addBadStmt fromPos toPos s"
| "addStmt w (Some (AssignStmt lhs rhs)) s = addAssignStmt w lhs rhs s"
| "addStmt w (Some (CommClause c)) s = addCommClause w c s"
| "addStmt w (Some (SwitchStmt sw init tag body)) s = addSwitchStmt w sw init tag body s"
| "addStmt w (Some (TypeSwitchStmt sw init assign body)) s = addTypeSwitchStmt w sw init assign body s"
| "addStmt w (Some (CaseClause cpos lst body)) s = addCaseStmt w cpos lst body s"
| "addStmt w (Some (DeclStmt d)) s = addDecl w d s"
| "addStmt w (Some (SendStmt ch v)) s = addSendStmt w ch v s"
| "addStmt w (Some (SelectStmt sel body)) s = addSelectStmt w sel body s"
| "addStmt w (Some (ReturnStmt ret results)) s = addReturnStmt w ret results s"
| "addStmt w (Some (RangeStmt forPos key val tokpos tok x body)) s =
     addRangeStmt w forPos key val tokpos tok x body s"
| "addStmt w (Some (LabeledStmt st)) s = addLabeledStmt w st s"
| "addStmt w (Some (IncDecStmt x)) s = addIncDecStmt w x s"
| "addStmt w (Some (IfStmt ifpos init cond body els)) s = addIfStmt w ifpos init cond body els s"
| "addStmt w (Some (GoStmt go call)) s = addGoStmt w go call s"
| "addStmt w (Some (ForStmt forPos init cond post body)) s = addForStmt w forPos init cond post body s"
| "addStmt w (Some (ExprStmt x)) s = addExprStmt w x s"
| "addStmt w (Some EmptyStmt) s = s"
| "addStmt w (Some (DeferStmt def call)) s = addDeferStmt w def call s"
| "addStmt w (Some (BranchStmt tokpos tok)) s = addBranchStmt tokpos tok s"
| "addStmt w (Some (BlockStmt b)) s = addBlockStmt w b s"
| "addStmt w (Some (UnknownStmt ty)) s = logPrintf (''Error: Unknown stmt type: '' @ ty) s"
| "addStmts w [] s = s"
| "addStmts w (st # sts) s = addStmts w sts (addStmt w (Some st) s)"
| "addSwitchStmt w sw init tag body s =
     (let s1 = add Keyword sw (len ''switch'') s;
          s2 = addStmt w init s1;
          s3 = addExpr w tag s2
      in addBlockStmt w body s3)"
| "addTypeSwitchStmt w sw init assign body s =
     (let s1 = add Keyword sw (len ''switch'') s;
          s2 = addStmt w init s1;
          s3 = addStmt w assign s2
      in addBlockStmt w body s3)"
| "addCaseStmt w cpos lst body s =
     (let length = (if lst = None then len ''default'' else len ''case'');
          s1 = add Keyword cpos length s;
          s2 = addExprs w (case lst of None \<Rightarrow> [] | Some es \<Rightarrow> es) s1
      in addStmts w body s2)"
| "addRangeStmt w forPos key val tokpos tok x body s =
     (let s1 = add Keyword forPos (len ''for'') s;
          s2 = addExpr w key s1;
          s3 = addExpr w val s2;
          rangeStart =
            (case tok of
               tok_ILLEGAL \<Rightarrow> forPos + len ''for ''
             | tok_ASSIGN \<Rightarrow> tokpos + len ''= ''
             | tok_DEFINE \<Rightarrow> tokpos + len '':= ''
             | _ \<Rightarrow> 0);
          s4 = add Keyword rangeStart (len ''range'') s3;
          s5 = addExpr w x s4
      in addBlockStmt w body s5)"
| "addIfStmt w ifpos init cond body els s =
     (let s1 = add Keyword ifpos (len ''if'') s;
          s2 = addStmt w init s1;
          s3 = addExpr w cond s2;
          s4 = addBlockStmt w body s3;
          s5 = (if els \<noteq> None then add Keyword (BlockStmt_End body + 1) (len ''else'') s4 else s4)
      in addStmt w els s5)"
| "addForStmt w forPos init cond post body s =
     (let s1 = add Keyword forPos (len ''for'') s;
          s2 = addStmt w init s1;
          s3 = addExpr w cond s2;
          s4 = addStmt w post s3
      in addBlockStmt w body s4)"
| "addLabeledStmt w st s = addStmt w st s"
| "addSelectStmt w sel body s = addBlockStmt w body (add Keyword sel (len ''select'') s)"
| "addBlockStmt w (Block lb rb lst) s =
     rainbowClose (addStmts w lst (rainbowScope lb 1 rb 1 s))"
  by pat_completeness auto

text \<open>
  Every call is on a smaller piece of syntax. The measure counts the statements below
  the arguments of each of the eleven functions; a list of statements counts one more
  than its walk statement by statement.
\<close>

termination
  by (relation "measure
    (case_sum
      (case_sum
        (case_sum (\<lambda>(w, st, s). 2 * size_option size st)
                  (\<lambda>(w, sts, s). 2 * size_list size sts + 1))
        (case_sum (\<lambda>(w, sw, init, tag, body, s). 2 * (size_option size init + size body + 1))
          (case_sum (\<lambda>(w, sw, init, assign, body, s).
                       2 * (size_option size init + size_option size assign + size body + 1))
                    (\<lambda>(w, cpos, lst, body, s). 2 * (size_list size body + 1)))))
      (case_sum
        (case_sum (\<lambda>(w, forPos, key, val, tokpos, tok, x, body, s). 2 * (size body + 1))
          (case_sum (\<lambda>(w, ifpos, init, cond, body, els, s).
                       2 * (size_option size init + size body + size_option size els + 1))
                    (\<lambda>(w, forPos, init, cond, post, body, s).
                       2 * (size_option size init + size_option size post + size body + 1))))
        (case_sum (\<lambda>(w, st, s). 2 * (size_option size st + 1))
          (case_sum (\<lambda>(w, sel, body, s). 2 * (size body + 1))
                    (\<lambda>(w, b, s). 2 * size b)))))") simp_all

text \<open>A walker state with nothing recorded.\<close>

definition emptySyntax :: Syntax where
  "emptySyntax = \<lparr>layers = (\<lambda>c. []), depth = 0, logged = []\<rparr>"

text \<open>Walkers that record nothing, for syntax that classifies no text.\<close>

definition nullWalkers :: "('e, 'd, 'c) walkers" where
  "nullWalkers =
     \<lparr>addExpr = (\<lambda>e s. s), addCallExpr = (\<lambda>e s. s), addDecl = (\<lambda>d s. s),
      addCommClause = (\<lambda>c s. s)\<rparr>"

text \<open>
  A state extends another when each of its layers is the other's layer with spans added
  at the end; a step of the walk grows the layers when it keeps every state extended.
  Expression walkers of which this holds remove no span that was recorded.
\<close>

definition ext :: "Syntax \<Rightarrow> Syntax \<Rightarrow> bool" where
  "ext s t \<longleftrightarrow> (\<forall>c. \<exists>new. layers t c = layers s c @ new)"

definition grows :: "(Syntax \<Rightarrow> Syntax) \<Rightarrow> bool" where
  "grows f \<longleftrightarrow> (\<forall>s t. ext s t \<longrightarrow> ext s (f t))"

definition extendingWalkers :: "('e, 'd, 'c) walkers \<Rightarrow> bool" where
  "extendingWalkers w \<longleftrightarrow>
     (\<forall>e. grows (addExpr w e)) \<and> (\<forall>e. grows (addCallExpr w e)) \<and>
     (\<forall>d. grows (addDecl w d)) \<and> (\<forall>c. grows (addCommClause w c))"


section \<open>The reload gate of the project tree (navigator, ProjectTree)\<close>

text \<open>
  \<^verbatim>\<open>reloadLock\<close> is a channel of capacity 1 that \<^verbatim>\<open>NewProjectTree\<close> makes. The watcher
  starts one goroutine running \<^verbatim>\<open>update\<close> for each file-system event. A goroutine is
  at one of these points of \<^verbatim>\<open>update\<close>:
  \<^item> \<open>AtSelect\<close>: before the \<^verbatim>\<open>select\<close> that tries to send on the channel;
  \<^item> \<open>Updating\<close>: the send succeeded, before the synchronous update of the directories;
  \<^item> \<open>TocCheck\<close>: before the test of the table of contents and its reload;
  \<^item> \<open>Deferred\<close>: the body has ended (returning or panicking), before the deferred receive;
  \<^item> \<open>Returned\<close>: the call is over.
\<close>

datatype pc = AtSelect | Updating | TocCheck | Deferred | Returned

text \<open>The channel holds values of the empty struct, so its state is the number it buffers.\<close>

record ProjectTree =
  reloadLock :: nat
  calls :: "pc list"

definition reloadLockCap :: nat where
  "reloadLockCap = 1"

definition NewProjectTree :: ProjectTree where
  "NewProjectTree = \<lparr>reloadLock = 0, calls = []\<rparr>"

text \<open>\<^verbatim>\<open>go p.update(e.Path)\<close> in \<^verbatim>\<open>watch\<close>.\<close>

definition spawnUpdate :: "ProjectTree \<Rightarrow> ProjectTree" where
  "spawnUpdate p = p\<lparr>calls := calls p @ [AtSelect]\<rparr>"

text \<open>
  One atomic step of the \<open>i\<close>-th call of \<^verbatim>\<open>update\<close>; \<open>None\<close> when the call cannot move
  (it is over, or it would block). The send in the \<^verbatim>\<open>select\<close> is taken when the buffer
  has room, and the \<^verbatim>\<open>default\<close> case, which returns, otherwise. A receive needs a
  buffered value.
\<close>

definition update :: "nat \<Rightarrow> ProjectTree \<Rightarrow> ProjectTree option" where
  "update i p =
     (if i < length (calls p) then
        (case calls p ! i of
           AtSelect \<Rightarrow>
             if reloadLock p < reloadLockCap
             then Some (p\<lparr>reloadLock := reloadLock p + 1, calls := (calls p)[i := Updating]\<rparr>)
             else Some (p\<lparr>calls := (calls p)[i := Returned]\<rparr>)
         | Updating \<Rightarrow> Some (p\<lparr>calls := (calls p)[i := TocCheck]\<rparr>)
         | TocCheck \<Rightarrow> Some (p\<lparr>calls := (calls p)[i := Deferred]\<rparr>)
         | Deferred \<Rightarrow>
             if 0 < reloadLock p
             then Some (p\<lparr>reloadLock := reloadLock p - 1, calls := (calls p)[i := Returned]\<rparr>)
             else None
         | Returned \<Rightarrow> None)
      else None)"

text \<open>The states the project tree can be in: any interleaving of events and steps.\<close>

inductive reachable :: "ProjectTree \<Rightarrow> bool" where
  init: "reachable NewProjectTree"
| event: "reachable p \<Longrightarrow> reachable (spawnUpdate p)"
| step: "reachable p \<Longrightarrow> update i p = Some p' \<Longrightarrow> reachable p'"

text \<open>A call is in flight from its successful send to its deferred receive.\<close>

fun holdsGate :: "pc \<Rightarrow> bool" where
  "holdsGate Updating = True"
| "holdsGate TocCheck = True"
| "holdsGate Deferred = True"
| "holdsGate _ = False"

definition inFlight :: "ProjectTree \<Rightarrow> nat" where
  "inFlight p = length (filter holdsGate (calls p))"

text \<open>What holds of the gate all along: the channel buffers one value per call in flight.\<close>

definition gateInv :: "ProjectTree \<Rightarrow> bool" where
  "gateInv p \<longleftrightarrow> inFlight p = reloadLock p \<and> reloadLock p \<le> reloadLockCap"

section \<open>Properties of the repositioner\<close>

lemma moveSpan_beyond: "At e > End s \<Longrightarrow> moveSpan s (e # edits) = s"
  by simp

lemma moveSpan_step: "\<not> At e > End s \<Longrightarrow> moveSpan s (e # edits) = moveSpan (editSpan s e) edits"
  by (simp add: editSpan_def Let_def)








text \<open>
  Claim C1, as the code has it. \<^verbatim>\<open>Applied\<close> moves every span of every layer through the
  batch, edit by edit in the order given, up to the first edit whose position is beyond
  the span's current end: there the loop returns the span as it stands, so neither that
  edit nor any edit after it in the batch changes the span.
\<close>

theorem moveSpan_stops_at_first_edit_beyond:
  "moveSpan s [] = s \<and>
   moveSpan s (e # edits) = (if At e > End s then s else moveSpan (editSpan s e) edits) \<and>
   Applied lays edits = map (\<lambda>l. l\<lparr>Spans := map (\<lambda>s. moveSpan s edits) (Spans l)\<rparr>) lays"
proof (intro conjI)
  show "moveSpan s [] = s"
    by simp
  show "moveSpan s (e # edits) = (if At e > End s then s else moveSpan (editSpan s e) edits)"
  proof (cases "At e > End s")
    case True
    then show ?thesis by simp
  next
    case False
    from moveSpan_step [OF False] False show ?thesis by simp
  qed
  show "Applied lays edits = map (\<lambda>l. l\<lparr>Spans := map (\<lambda>s. moveSpan s edits) (Spans l)\<rparr>) lays"
    by (simp add: Applied_def moveLayer_def)
qed

theorem moveSpan_stops_at_first_edit_beyond_witness:
  "moveSpan \<lparr>Start = 10, End = 20\<rparr> [insertion 30 [120], insertion 0 [97, 98, 99, 100, 101]]
     = \<lparr>Start = 10, End = 20\<rparr> \<and>
   moveSpan \<lparr>Start = 10, End = 20\<rparr> [insertion 15 [120], insertion 0 [97, 98, 99, 100, 101]]
     = \<lparr>Start = 15, End = 26\<rparr>"
  using moveSpan_stops_at_first_edit_beyond [of "\<lparr>Start = 10, End = 20\<rparr>" "insertion 30 [120]"
      "[insertion 0 [97, 98, 99, 100, 101]]" "[]"]
    moveSpan_stops_at_first_edit_beyond [of "\<lparr>Start = 10, End = 20\<rparr>" "insertion 15 [120]"
      "[insertion 0 [97, 98, 99, 100, 101]]" "[]"]
  by (simp add: insertion_def editSpan_def wrap64_def)

text \<open>
  An edit beyond the span's end followed by an insertion before the span: the insertion
  alone moves the span, the batch of the two does not.
\<close>

theorem skipped_edit_ends_batch_counterexample:
  "At (insertion 30 [120]) > End \<lparr>Start = 10, End = 20\<rparr> \<and>
   moveSpan \<lparr>Start = 10, End = 20\<rparr> [insertion 30 [120], insertion 0 [97, 98, 99, 100, 101]]
     \<noteq> moveSpan \<lparr>Start = 10, End = 20\<rparr> [insertion 0 [97, 98, 99, 100, 101]]"
  by (simp add: insertion_def wrap64_def)



text \<open>
  Beyond that bound the sum wraps: a span that ends at the largest \<^verbatim>\<open>int\<close> and an
  insertion of two runes at position 0 give a span whose end, wrapped and clamped to 0,
  lies before its start.
\<close>

theorem overflow_breaks_validity_counterexample:
  "validSpan \<lparr>Start = 2 ^ 63 - 3, End = 2 ^ 63 - 1\<rparr>
   \<and> 0 \<le> At (insertion 0 [97, 98])
   \<and> Applied [\<lparr>Spans = [\<lparr>Start = 2 ^ 63 - 3, End = 2 ^ 63 - 1\<rparr>]\<rparr>] [insertion 0 [97, 98]]
       = [\<lparr>Spans = [\<lparr>Start = 2 ^ 63 - 1, End = 0\<rparr>]\<rparr>]
   \<and> \<not> Start \<lparr>Start = 2 ^ 63 - 1, End = 0\<rparr> \<le> End \<lparr>Start = 2 ^ 63 - 1, End = (0::int)\<rparr>"
  by (simp add: validSpan_def insertion_def Applied_def moveLayer_def wrap64_def)



text \<open>
  Beyond the bound: a span that ends at the largest \<^verbatim>\<open>int\<close> and an insertion of one rune
  before it. The end wraps and is clamped to the edit's position instead of growing by 1.
\<close>

theorem insertion_overflow_counterexample:
  "Start \<lparr>Start = 2 ^ 63 - 2, End = 2 ^ 63 - 1\<rparr> \<le> End \<lparr>Start = 2 ^ 63 - 2, End = (2 ^ 63 - 1 :: int)\<rparr>
   \<and> At (insertion 5 [97]) < Start \<lparr>Start = 2 ^ 63 - 2, End = 2 ^ 63 - 1\<rparr>
   \<and> Applied [\<lparr>Spans = [\<lparr>Start = 2 ^ 63 - 2, End = 2 ^ 63 - 1\<rparr>]\<rparr>] [insertion 5 [97]]
       = [\<lparr>Spans = [\<lparr>Start = 2 ^ 63 - 1, End = 5\<rparr>]\<rparr>]
   \<and> End \<lparr>Start = 2 ^ 63 - 1, End = 5\<rparr> \<noteq> End \<lparr>Start = 2 ^ 63 - 2, End = (2 ^ 63 - 1 :: int)\<rparr> + 1"
  by (simp add: insertion_def Applied_def moveLayer_def wrap64_def)

section \<open>Properties of the outline builder\<close>

lemma parseTagged_append:
  "parseTagged pkgName (xs @ ys) b =
     (case parseTagged pkgName xs b of Inl err \<Rightarrow> Inl err | Inr b1 \<Rightarrow> parseTagged pkgName ys b1)"
  by (induction xs arbitrary: b) (auto split: sum.splits)

lemma parseDecls_tagged:
  "parseDecls pkgName fname decls b = parseTagged pkgName (map (Pair fname) decls) b"
  by (induction decls arbitrary: b) (auto split: sum.splits)

lemma parseFiles_tagged:
  "parseFiles pkgName fs b
     = parseTagged pkgName (concat (map (\<lambda>(fname, f). map (Pair fname) (Decls f)) fs)) b"
  by (induction fs arbitrary: b)
    (auto simp: parseTagged_append parseDecls_tagged split: sum.splits)

lemma parsePkg_tagged:
  "parsePkg pkg =
     (case parseTagged (PkgName pkg) (declsInOrder pkg) newBuild of
        Inl err \<Rightarrow> Inl err
      | Inr b \<Rightarrow> Inr (pkgNode (PkgName pkg) b))"
  by (simp add: parsePkg_def parseFiles_tagged declsInOrder_def)

lemma mset_two:
  assumes "mset xs = {#a, b#}"
  shows "xs = [a, b] \<or> xs = [b, a]"
proof -
  from assms have "size (mset xs) = 2"
    by simp
  then have "length xs = 2"
    by simp
  then obtain x y where xs: "xs = [x, y]"
    by (cases xs; cases "tl xs") auto
  with assms have "{#x, y#} = {#a, b#}"
    by simp
  then have "x = a \<and> y = b \<or> x = b \<and> y = a"
    by (auto simp: add_eq_conv_ex)
  with xs show ?thesis
    by auto
qed

lemma type_then_method:
  "parseTagged pkgName [(tf, typeDecl tn tp), (mf, methodDecl ptr tn rp mn np mp)] newBuild
    = Inr \<lparr>constNodes = [], varNodes = [],
        store = [Name tn (pkgName @ ''.types.'' @ tn) nameColor
          [Name mn (pkgName @ ''.types.'' @ tn @ ''.'' @ mn) nameColor [] mf mp] tf tp],
        typeMap = [tn \<mapsto> 0], typeNodes = [0], funcNodes = []\<rparr>"
  by (simp add: parseDecl_def typeDecl_def methodDecl_def lookupType_def newBuild_def
      setDecl_def setPath_def appendChild_def emptyName_def newName_def)

lemma method_then_type:
  "parseTagged pkgName [(mf, methodDecl ptr tn rp mn np mp), (tf, typeDecl tn tp)] newBuild
    = Inr \<lparr>constNodes = [], varNodes = [],
        store = [Name tn (pkgName @ ''.types.'' @ tn) nameColor
          [Name mn (pkgName @ ''.types.'' @ tn @ ''.'' @ mn) nameColor [] mf mp] tf tp],
        typeMap = [tn \<mapsto> 0], typeNodes = [0], funcNodes = []\<rparr>"
  by (simp add: parseDecl_def typeDecl_def methodDecl_def lookupType_def newBuild_def
      setDecl_def setPath_def appendChild_def emptyName_def newName_def)

text \<open>
  Claim C4. A package whose declarations are a type and one method of it, met in any
  order and spread over the files in any way, has the same outline: one node for the
  type under \<^verbatim>\<open>types\<close>, filled in from the type declaration, with the method as its
  one child.
\<close>

theorem parsePkg_type_and_method_any_order:
  assumes "mset (declsInOrder pkg) = {#(tf, typeDecl tn tp), (mf, methodDecl ptr tn rp mn np mp)#}"
  shows "parsePkg pkg =
    Inr (genericTreeNode (PkgName pkg) (PkgName pkg) skippableColor
      [genericTreeNode ''constants'' (PkgName pkg @ ''.constants'') genericColor [],
       genericTreeNode ''global vars'' (PkgName pkg @ ''.global vars'') genericColor [],
       genericTreeNode ''types'' (PkgName pkg @ ''.types'') genericColor
         [Name tn (PkgName pkg @ ''.types.'' @ tn) nameColor
            [Name mn (PkgName pkg @ ''.types.'' @ tn @ ''.'' @ mn) nameColor [] mf mp]
            tf tp],
       genericTreeNode ''funcs'' (PkgName pkg @ ''.funcs'') genericColor []])"
proof -
  from mset_two [OF assms]
  have "parseTagged (PkgName pkg) (declsInOrder pkg) newBuild
    = Inr \<lparr>constNodes = [], varNodes = [],
        store = [Name tn (PkgName pkg @ ''.types.'' @ tn) nameColor
          [Name mn (PkgName pkg @ ''.types.'' @ tn @ ''.'' @ mn) nameColor [] mf mp] tf tp],
        typeMap = [tn \<mapsto> 0], typeNodes = [0], funcNodes = []\<rparr>"
    using type_then_method method_then_type by metis
  then show ?thesis
    by (simp add: parsePkg_tagged pkgNode_def)
qed

theorem parsePkg_type_and_method_any_order_witness:
  "parsePkg \<lparr>PkgName = ''foo'', Files =
      [(''bar.go'', \<lparr>Decls = [methodDecl True ''Foo'' 22 ''Bar'' 27 13]\<rparr>),
       (''foo.go'', \<lparr>Decls = [typeDecl ''Foo'' 18]\<rparr>)]\<rparr>
   = Inr (genericTreeNode ''foo'' ''foo'' skippableColor
      [genericTreeNode ''constants'' ''foo.constants'' genericColor [],
       genericTreeNode ''global vars'' ''foo.global vars'' genericColor [],
       genericTreeNode ''types'' ''foo.types'' genericColor
         [Name ''Foo'' ''foo.types.Foo'' nameColor
            [Name ''Bar'' ''foo.types.Foo.Bar'' nameColor [] ''bar.go'' 13]
            ''foo.go'' 18],
       genericTreeNode ''funcs'' ''foo.funcs'' genericColor []])"
proof -
  have prem: "mset (declsInOrder \<lparr>PkgName = ''foo'', Files =
      [(''bar.go'', \<lparr>Decls = [methodDecl True ''Foo'' 22 ''Bar'' 27 13]\<rparr>),
       (''foo.go'', \<lparr>Decls = [typeDecl ''Foo'' 18]\<rparr>)]\<rparr>)
    = {#(''foo.go'', typeDecl ''Foo'' 18), (''bar.go'', methodDecl True ''Foo'' 22 ''Bar'' 27 13)#}"
    by (simp add: declsInOrder_def)
  show ?thesis
    using parsePkg_type_and_method_any_order [OF prem] by simp
qed

lemma parseDecl_type_first_spec:
  "parseDecl pkgName fname (GenDecl tok_TYPE (spec # rest)) b
     = parseDecl pkgName fname (GenDecl tok_TYPE [spec]) b"
  by (cases spec) (simp_all add: parseDecl_def)

lemma parseTagged_type_first_spec:
  "parseTagged pkgName (xs @ (fname, GenDecl tok_TYPE (spec # rest)) # ys) b
     = parseTagged pkgName (xs @ (fname, GenDecl tok_TYPE [spec]) # ys) b"
  by (simp add: parseTagged_append parseDecl_type_first_spec [of pkgName fname spec rest]
      split: sum.splits)

text \<open>
  Claim C9. Of a \<^verbatim>\<open>type\<close> declaration only the first spec is read: the specs after it
  change neither the step for the declaration nor the outline of any package that
  contains it, and a package that declares only a group of types has one node under
  \<^verbatim>\<open>types\<close>, that of the first.
\<close>

theorem grouped_type_decl_first_spec_only:
  "parseDecl pkgName fname (GenDecl tok_TYPE (spec # rest)) b
     = parseDecl pkgName fname (GenDecl tok_TYPE [spec]) b
   \<and> parsePkg \<lparr>PkgName = pkgName, Files =
        fs1 @ (fname, \<lparr>Decls = ds1 @ GenDecl tok_TYPE (spec # rest) # ds2\<rparr>) # fs2\<rparr>
     = parsePkg \<lparr>PkgName = pkgName, Files =
        fs1 @ (fname, \<lparr>Decls = ds1 @ GenDecl tok_TYPE [spec] # ds2\<rparr>) # fs2\<rparr>
   \<and> parsePkg \<lparr>PkgName = pkgName, Files =
        [(fname, \<lparr>Decls = [GenDecl tok_TYPE (TypeSpec (Ident p tn) # rest)]\<rparr>)]\<rparr>
     = Inr (genericTreeNode pkgName pkgName skippableColor
        [genericTreeNode ''constants'' (pkgName @ ''.constants'') genericColor [],
         genericTreeNode ''global vars'' (pkgName @ ''.global vars'') genericColor [],
         genericTreeNode ''types'' (pkgName @ ''.types'') genericColor
           [Name tn (pkgName @ ''.types.'' @ tn) nameColor [] fname p],
         genericTreeNode ''funcs'' (pkgName @ ''.funcs'') genericColor []])"
proof (intro conjI)
  show "parseDecl pkgName fname (GenDecl tok_TYPE (spec # rest)) b
     = parseDecl pkgName fname (GenDecl tok_TYPE [spec]) b"
    by (rule parseDecl_type_first_spec)
  have "parseTagged pkgName (declsInOrder \<lparr>PkgName = pkgName, Files =
        fs1 @ (fname, \<lparr>Decls = ds1 @ GenDecl tok_TYPE (spec # rest) # ds2\<rparr>) # fs2\<rparr>) newBuild
    = parseTagged pkgName (declsInOrder \<lparr>PkgName = pkgName, Files =
        fs1 @ (fname, \<lparr>Decls = ds1 @ GenDecl tok_TYPE [spec] # ds2\<rparr>) # fs2\<rparr>) newBuild"
    using parseTagged_type_first_spec
      [of pkgName "concat (map (\<lambda>(fname, f). map (Pair fname) (Decls f)) fs1) @ map (Pair fname) ds1"
        fname spec rest
        "map (Pair fname) ds2 @ concat (map (\<lambda>(fname, f). map (Pair fname) (Decls f)) fs2)" newBuild]
    by (simp add: declsInOrder_def)
  then show "parsePkg \<lparr>PkgName = pkgName, Files =
        fs1 @ (fname, \<lparr>Decls = ds1 @ GenDecl tok_TYPE (spec # rest) # ds2\<rparr>) # fs2\<rparr>
     = parsePkg \<lparr>PkgName = pkgName, Files =
        fs1 @ (fname, \<lparr>Decls = ds1 @ GenDecl tok_TYPE [spec] # ds2\<rparr>) # fs2\<rparr>"
    by (simp add: parsePkg_tagged split: sum.splits)
  show "parsePkg \<lparr>PkgName = pkgName, Files =
        [(fname, \<lparr>Decls = [GenDecl tok_TYPE (TypeSpec (Ident p tn) # rest)]\<rparr>)]\<rparr>
     = Inr (genericTreeNode pkgName pkgName skippableColor
        [genericTreeNode ''constants'' (pkgName @ ''.constants'') genericColor [],
         genericTreeNode ''global vars'' (pkgName @ ''.global vars'') genericColor [],
         genericTreeNode ''types'' (pkgName @ ''.types'') genericColor
           [Name tn (pkgName @ ''.types.'' @ tn) nameColor [] fname p],
         genericTreeNode ''funcs'' (pkgName @ ''.funcs'') genericColor []])"
    by (simp add: parsePkg_def pkgNode_def parseDecl_def lookupType_def newBuild_def setDecl_def emptyName_def)
qed

text \<open>
  \<^verbatim>\<open>type ( A int; B int )\<close> in the only file of a package: the outline has a node for
  \<^verbatim>\<open>A\<close> and none for \<^verbatim>\<open>B\<close>.
\<close>

theorem grouped_type_decl_first_spec_only_witness:
  "parsePkg \<lparr>PkgName = ''foo'', Files =
      [(''foo.go'', \<lparr>Decls = [GenDecl tok_TYPE [TypeSpec (Ident 20 ''A''), TypeSpec (Ident 27 ''B'')]]\<rparr>)]\<rparr>
   = Inr (genericTreeNode ''foo'' ''foo'' skippableColor
      [genericTreeNode ''constants'' ''foo.constants'' genericColor [],
       genericTreeNode ''global vars'' ''foo.global vars'' genericColor [],
       genericTreeNode ''types'' ''foo.types'' genericColor
         [Name ''A'' ''foo.types.A'' nameColor [] ''foo.go'' 20],
       genericTreeNode ''funcs'' ''foo.funcs'' genericColor []])"
  using conjunct2 [OF conjunct2 [OF grouped_type_decl_first_spec_only
      [of "''foo''" "''foo.go''" "TypeSpec (Ident 20 ''A'')" "[TypeSpec (Ident 27 ''B'')]" newBuild
        "[]" "[]" "[]" "[]" 20 "''A''"]]]
  by simp












section \<open>Properties of the displayed tree\<close>










section \<open>Properties of the statement walker\<close>

lemma layers_add:
  "layers (add c p n s) = (layers s)(c := layers s c @ [\<lparr>Start = p, End = p + n\<rparr>])"
  by (simp add: add_def)

lemma addStmts_append: "addStmts w (xs @ ys) s = addStmts w ys (addStmts w xs s)"
  by (induction xs arbitrary: s) simp_all

lemma ext_refl: "ext s s"
  by (simp add: ext_def)

lemma ext_trans: "ext s t \<Longrightarrow> ext t u \<Longrightarrow> ext s u"
  unfolding ext_def
proof
  fix c
  assume st: "\<forall>c. \<exists>new. layers t c = layers s c @ new"
    and tu: "\<forall>c. \<exists>new. layers u c = layers t c @ new"
  from st obtain n1 where "layers t c = layers s c @ n1" by blast
  moreover from tu obtain n2 where "layers u c = layers t c @ n2" by blast
  ultimately have "layers u c = layers s c @ (n1 @ n2)" by simp
  then show "\<exists>new. layers u c = layers s c @ new" ..
qed

lemma ext_mem: "ext s t \<Longrightarrow> x \<in> set (layers s c) \<Longrightarrow> x \<in> set (layers t c)"
  unfolding ext_def by (metis UnCI set_append)

lemma growsI: "(\<And>t. ext t (f t)) \<Longrightarrow> grows f"
  unfolding grows_def by (blast intro: ext_trans)

lemma growsD: "grows f \<Longrightarrow> ext s t \<Longrightarrow> ext s (f t)"
  by (simp add: grows_def)

lemma grows_add: "grows (add c p n)"
  by (rule growsI) (simp add: ext_def add_def)

lemma grows_logPrintf: "grows (logPrintf msg)"
  by (rule growsI) (simp add: ext_def logPrintf_def)

lemma grows_rainbowScope: "grows (rainbowScope a b c d)"
  by (rule growsI) (simp add: ext_def rainbowScope_def add_def)

lemma grows_rainbowClose: "grows rainbowClose"
  by (rule growsI) (simp add: ext_def rainbowClose_def)

lemma grows_addExprs: "extendingWalkers w \<Longrightarrow> grows (addExprs w es)"
proof (induction es)
  case Nil
  show ?case by (simp add: grows_def)
next
  case (Cons e es)
  from Cons.prems have e: "grows (addExpr w e)"
    by (simp add: extendingWalkers_def)
  from Cons.IH [OF Cons.prems] e show ?case
    by (simp add: grows_def)
qed

lemma grows_addStmts:
  "\<forall>st\<in>set sts. grows (addStmt w (Some st)) \<Longrightarrow> grows (addStmts w sts)"
proof (induction sts)
  case Nil
  show ?case by (simp add: grows_def)
next
  case (Cons st sts)
  then have "grows (addStmt w (Some st))" and "grows (addStmts w sts)"
    by simp_all
  then show ?case
    by (simp add: grows_def)
qed

lemma grows_addStmt_opt:
  "\<forall>st\<in>set_option ost. grows (addStmt w (Some st)) \<Longrightarrow> grows (addStmt w ost)"
  by (cases ost) (simp_all add: grows_def)

lemma grows_walk:
  fixes w :: "('e, 'd, 'c) walkers"
    and st :: "('e, 'd, 'c) Stmt" and b :: "('e, 'd, 'c) BlockStmt"
  assumes w: "extendingWalkers w"
  shows "grows (addStmt w (Some st))" and "grows (addBlockStmt w b)"
proof (induction st and b)
  case (BadStmt x1 x2)
  show ?case
    by (rule growsI) (simp add: addBadStmt_def addNode_def growsD [OF grows_add ext_refl])
next
  case (AssignStmt lhs rhs)
  from grows_addExprs [OF w] show ?case
    by (simp add: grows_def addAssignStmt_def)
next
  case (CommClause c)
  from w show ?case
    by (simp add: grows_def extendingWalkers_def)
next
  case (SwitchStmt sw init tag body)
  from SwitchStmt.IH(1) have "grows (addStmt w init)"
    by (intro grows_addStmt_opt) simp
  with SwitchStmt.IH(2) w grows_add [of Keyword sw "len ''switch''"] show ?case
    by (simp add: grows_def extendingWalkers_def)
next
  case (TypeSwitchStmt sw init assign body)
  from TypeSwitchStmt.IH(1) have "grows (addStmt w init)"
    by (intro grows_addStmt_opt) simp
  moreover from TypeSwitchStmt.IH(2) have "grows (addStmt w assign)"
    by (intro grows_addStmt_opt) simp
  ultimately show ?case
    using TypeSwitchStmt.IH(3) w grows_add [of Keyword sw "len ''switch''"]
    by (simp add: grows_def extendingWalkers_def)
next
  case (CaseClause cpos lst body)
  from CaseClause.IH have "grows (addStmts w body)"
    by (intro grows_addStmts) simp
  with grows_addExprs [OF w] grows_add [of Keyword cpos] show ?case
    by (simp add: grows_def Let_def)
next
  case (DeclStmt d)
  from w show ?case
    by (simp add: grows_def extendingWalkers_def)
next
  case (SendStmt ch v)
  from w show ?case
    by (simp add: grows_def extendingWalkers_def addSendStmt_def)
next
  case (SelectStmt sel body)
  with grows_add [of Keyword sel "len ''select''"] show ?case
    by (simp add: grows_def)
next
  case (ReturnStmt ret results)
  from grows_addExprs [OF w] grows_add [of Keyword ret "len ''return''"] show ?case
    by (simp add: grows_def addReturnStmt_def)
next
  case (RangeStmt forPos key val tokpos tok x body)
  with w grows_add [of Keyword] show ?case
    by (simp add: grows_def extendingWalkers_def Let_def)
next
  case (LabeledStmt st)
  then have "grows (addStmt w st)"
    by (intro grows_addStmt_opt) simp
  then show ?case
    by simp
next
  case (IncDecStmt x)
  from w show ?case
    by (simp add: grows_def extendingWalkers_def addIncDecStmt_def)
next
  case (IfStmt ifpos init cond body els)
  from IfStmt.IH(1) have "grows (addStmt w init)"
    by (intro grows_addStmt_opt) simp
  moreover from IfStmt.IH(3) have "grows (addStmt w els)"
    by (intro grows_addStmt_opt) simp
  ultimately show ?case
    using IfStmt.IH(2) w grows_add [of Keyword]
    by (simp add: grows_def extendingWalkers_def Let_def)
next
  case (GoStmt gopos call)
  from w grows_add [of Keyword gopos "len ''go''"] show ?case
    by (simp add: grows_def extendingWalkers_def addGoStmt_def)
next
  case (ForStmt forPos init cond post body)
  from ForStmt.IH(1) have "grows (addStmt w init)"
    by (intro grows_addStmt_opt) simp
  moreover from ForStmt.IH(2) have "grows (addStmt w post)"
    by (intro grows_addStmt_opt) simp
  ultimately show ?case
    using ForStmt.IH(3) w grows_add [of Keyword forPos "len ''for''"]
    by (simp add: grows_def extendingWalkers_def Let_def)
next
  case (ExprStmt x)
  from w show ?case
    by (simp add: grows_def extendingWalkers_def addExprStmt_def)
next
  case EmptyStmt
  show ?case
    by (simp add: grows_def)
next
  case (DeferStmt dpos call)
  from w grows_add [of Keyword dpos "len ''defer''"] show ?case
    by (simp add: grows_def extendingWalkers_def addDeferStmt_def)
next
  case (BranchStmt tokpos tok)
  from grows_add [of Keyword tokpos] show ?case
    by (simp add: grows_def addBranchStmt_def)
next
  case (BlockStmt b)
  then show ?case
    by simp
next
  case (UnknownStmt ty)
  from grows_logPrintf show ?case
    by (simp add: grows_def)
next
  case (Block lb rb lst)
  then have "grows (addStmts w lst)"
    by (intro grows_addStmts) simp
  with grows_rainbowScope [of lb 1 rb 1] grows_rainbowClose show ?case
    by (simp add: grows_def)
qed

lemma extendingWalkers_nullWalkers: "extendingWalkers nullWalkers"
  by (simp add: extendingWalkers_def nullWalkers_def grows_def)

lemma ext_add_mem:
  assumes "ext (add c p n s) t"
  shows "\<lparr>Start = p, End = p + n\<rparr> \<in> set (layers t c)"
proof -
  have "\<lparr>Start = p, End = p + n\<rparr> \<in> set (layers (add c p n s) c)"
    by (simp add: add_def)
  with assms show ?thesis
    by (rule ext_mem)
qed

lemma recorded_stays:
  assumes "extendingWalkers w"
  shows "\<lparr>Start = p, End = p + n\<rparr>
    \<in> set (layers (addBlockStmt w body (addExpr w x (add c p n s))) c)"
    and "\<lparr>Start = p, End = p + n\<rparr> \<in> set (layers (addStmt w st (add c p n s)) c)"
proof -
  from assms have x: "grows (addExpr w x)"
    by (simp add: extendingWalkers_def)
  from growsD [OF grows_walk(2) [OF assms] growsD [OF x ext_refl]]
  show "\<lparr>Start = p, End = p + n\<rparr>
    \<in> set (layers (addBlockStmt w body (addExpr w x (add c p n s))) c)"
    by (rule ext_add_mem)
  have "grows (addStmt w st)"
    by (rule grows_addStmt_opt) (simp add: grows_walk(1) [OF assms])
  from growsD [OF this ext_refl] show "\<lparr>Start = p, End = p + n\<rparr> \<in> set (layers (addStmt w st (add c p n s)) c)"
    by (rule ext_add_mem)
qed

text \<open>
  Claim C6. \<^verbatim>\<open>addStmt\<close> hands a range statement to \<^verbatim>\<open>addRangeStmt\<close>, which records the
  keyword \<^verbatim>\<open>range\<close> after the key and the value and before the ranged expression, at a
  start that depends on the assignment token alone: with no token, the position of
  \<^verbatim>\<open>for\<close> plus 4, the length of \<^verbatim>\<open>"for "\<close>; with \<^verbatim>\<open>=\<close>, the token's position plus 2;
  with \<^verbatim>\<open>:=\<close>, the token's position plus 3. The span recorded has length 5, that of the
  word \<^verbatim>\<open>range\<close>. When the expression walkers remove no span, that span is in the
  keyword layer at the end of the walk of the statement.
\<close>

theorem addRangeStmt_range_keyword:
  "addStmt (w :: ('e, 'd, 'c) walkers) (Some (RangeStmt forPos key val tokpos tok x body)) s
     = addRangeStmt w forPos key val tokpos tok x body s
   \<and> addRangeStmt w forPos key val tokpos tok_ILLEGAL x body s
     = addBlockStmt w body (addExpr w x (add Keyword (forPos + len ''for '') (len ''range'')
         (addExpr w val (addExpr w key (add Keyword forPos (len ''for'') s)))))
   \<and> addRangeStmt w forPos key val tokpos tok_ASSIGN x body s
     = addBlockStmt w body (addExpr w x (add Keyword (tokpos + len ''= '') (len ''range'')
         (addExpr w val (addExpr w key (add Keyword forPos (len ''for'') s)))))
   \<and> addRangeStmt w forPos key val tokpos tok_DEFINE x body s
     = addBlockStmt w body (addExpr w x (add Keyword (tokpos + len '':= '') (len ''range'')
         (addExpr w val (addExpr w key (add Keyword forPos (len ''for'') s)))))
   \<and> layers (add Keyword p (len ''range'') s) Keyword
     = layers s Keyword @ [\<lparr>Start = p, End = p + 5\<rparr>]
   \<and> len ''for '' = 4 \<and> len ''= '' = 2 \<and> len '':= '' = 3
   \<and> (extendingWalkers w \<longrightarrow>
        \<lparr>Start = forPos + 4, End = forPos + 4 + 5\<rparr>
          \<in> set (layers (addRangeStmt w forPos key val tokpos tok_ILLEGAL x body s) Keyword)
      \<and> \<lparr>Start = tokpos + 2, End = tokpos + 2 + 5\<rparr>
          \<in> set (layers (addRangeStmt w forPos key val tokpos tok_ASSIGN x body s) Keyword)
      \<and> \<lparr>Start = tokpos + 3, End = tokpos + 3 + 5\<rparr>
          \<in> set (layers (addRangeStmt w forPos key val tokpos tok_DEFINE x body s) Keyword))"
proof -
  have stays: "\<lparr>Start = q, End = e\<rparr>
      \<in> set (layers (addBlockStmt w body (addExpr w x (add Keyword q 5 t))) Keyword)"
    if "extendingWalkers w" and "e = q + 5" for q e t
    using recorded_stays(1) [OF that(1)] that(2) by simp
  show ?thesis
    by (simp add: Let_def len_def layers_add stays)
qed

text \<open>
  \<^verbatim>\<open>for i := range xs {}\<close> with \<^verbatim>\<open>for\<close> at position 10: \<^verbatim>\<open>:=\<close> is at 16 and \<^verbatim>\<open>range\<close>
  at 19.
\<close>

theorem addRangeStmt_range_keyword_witness:
  "extendingWalkers (nullWalkers :: (unit, unit, unit) walkers)
   \<and> \<lparr>Start = 19, End = 24\<rparr>
       \<in> set (layers (addRangeStmt (nullWalkers :: (unit, unit, unit) walkers)
           10 () () 16 tok_DEFINE () (Block 28 29 []) emptySyntax) Keyword)
   \<and> layers (addStmt (nullWalkers :: (unit, unit, unit) walkers)
        (Some (RangeStmt 10 () () 16 tok_DEFINE () (Block 28 29 []))) emptySyntax) Keyword
     = [\<lparr>Start = 10, End = 13\<rparr>, \<lparr>Start = 19, End = 24\<rparr>]"
proof -
  have null: "extendingWalkers (nullWalkers :: (unit, unit, unit) walkers)"
    by (rule extendingWalkers_nullWalkers)
  have "\<lparr>Start = 16 + 3, End = 16 + 3 + 5\<rparr>
      \<in> set (layers (addRangeStmt (nullWalkers :: (unit, unit, unit) walkers)
          10 () () 16 tok_DEFINE () (Block 28 29 []) emptySyntax) Keyword)"
    using addRangeStmt_range_keyword [of "nullWalkers :: (unit, unit, unit) walkers"
        10 "()" "()" 16 tok_DEFINE "()" "Block 28 29 []" emptySyntax 0] null
    by blast
  then have mem: "\<lparr>Start = 19, End = 24\<rparr>
      \<in> set (layers (addRangeStmt (nullWalkers :: (unit, unit, unit) walkers)
          10 () () 16 tok_DEFINE () (Block 28 29 []) emptySyntax) Keyword)"
    by (simp del: addRangeStmt.simps)
  have run: "layers (addStmt (nullWalkers :: (unit, unit, unit) walkers)
        (Some (RangeStmt 10 () () 16 tok_DEFINE () (Block 28 29 []))) emptySyntax) Keyword
     = [\<lparr>Start = 10, End = 13\<rparr>, \<lparr>Start = 19, End = 24\<rparr>]"
    by (simp add: len_def nullWalkers_def add_def emptySyntax_def rainbowScope_def rainbowClose_def)
  from null mem run show ?thesis
    by (simp del: addRangeStmt.simps addStmt.simps)
qed

text \<open>
  Claim C10. For an if statement with an else branch \<^verbatim>\<open>addIfStmt\<close> records, after the
  body and before the else branch, a keyword span of length 4 that starts one position
  after the end of the body, that is two positions after its closing brace; without an
  else branch it records none. The start is computed from the body alone: when the
  \<^verbatim>\<open>else\<close> token stands \<open>gap\<close> positions after the end of the body, the recorded span
  is the token's span exactly when \<open>gap = 1\<close>. When the expression walkers remove no
  span, the recorded span is in the keyword layer at the end of the walk of the
  statement.
\<close>

theorem addIfStmt_else_keyword:
  "addStmt (w :: ('e, 'd, 'c) walkers) (Some (IfStmt ifpos init cond body els)) s
     = addIfStmt w ifpos init cond body els s
   \<and> addIfStmt w ifpos init cond body (Some els') s
     = addStmt w (Some els') (add Keyword (BlockStmt_End body + 1) (len ''else'')
         (addBlockStmt w body (addExpr w cond (addStmt w init (add Keyword ifpos (len ''if'') s)))))
   \<and> addIfStmt w ifpos init cond body None s
     = addBlockStmt w body (addExpr w cond (addStmt w init (add Keyword ifpos (len ''if'') s)))
   \<and> layers (add Keyword (BlockStmt_End body + 1) (len ''else'') s) Keyword
     = layers s Keyword @ [\<lparr>Start = Rbrace body + 2, End = Rbrace body + 2 + 4\<rparr>]
   \<and> ((\<lparr>Start = BlockStmt_End body + 1, End = BlockStmt_End body + 1 + len ''else''\<rparr>
        = \<lparr>Start = BlockStmt_End body + gap, End = BlockStmt_End body + gap + len ''else''\<rparr>)
       = (gap = 1))
   \<and> (extendingWalkers w \<longrightarrow>
        \<lparr>Start = BlockStmt_End body + 1, End = BlockStmt_End body + 1 + 4\<rparr>
          \<in> set (layers (addIfStmt w ifpos init cond body (Some els') s) Keyword))"
proof -
  have stays: "\<lparr>Start = q, End = e\<rparr> \<in> set (layers (addStmt w (Some els') (add Keyword q 4 t)) Keyword)"
    if "extendingWalkers w" and "e = q + 4" for q e t
    using recorded_stays(2) [OF that(1)] that(2) by simp
  show ?thesis
    by (auto simp: Let_def len_def layers_add BlockStmt_End_def stays)
qed

text \<open>
  \<^verbatim>\<open>if c {} else {}\<close> with \<^verbatim>\<open>if\<close> at position 10: the body's braces are at 15 and 16 and
  \<^verbatim>\<open>else\<close> is at 18.
\<close>

theorem addIfStmt_else_keyword_witness:
  "extendingWalkers (nullWalkers :: (unit, unit, unit) walkers)
   \<and> \<lparr>Start = 18, End = 22\<rparr>
       \<in> set (layers (addIfStmt (nullWalkers :: (unit, unit, unit) walkers)
           10 None () (Block 15 16 []) (Some (BlockStmt (Block 23 24 []))) emptySyntax) Keyword)
   \<and> layers (addStmt (nullWalkers :: (unit, unit, unit) walkers)
        (Some (IfStmt 10 None () (Block 15 16 []) (Some (BlockStmt (Block 23 24 []))))) emptySyntax)
        Keyword
     = [\<lparr>Start = 10, End = 12\<rparr>, \<lparr>Start = 18, End = 22\<rparr>]"
proof -
  have null: "extendingWalkers (nullWalkers :: (unit, unit, unit) walkers)"
    by (rule extendingWalkers_nullWalkers)
  have "\<lparr>Start = BlockStmt_End (Block 15 16 [] :: (unit, unit, unit) BlockStmt) + 1,
        End = BlockStmt_End (Block 15 16 [] :: (unit, unit, unit) BlockStmt) + 1 + 4\<rparr>
      \<in> set (layers (addIfStmt (nullWalkers :: (unit, unit, unit) walkers)
          10 None () (Block 15 16 []) (Some (BlockStmt (Block 23 24 []))) emptySyntax) Keyword)"
    using addIfStmt_else_keyword [of "nullWalkers :: (unit, unit, unit) walkers"
        10 None "()" "Block 15 16 []" "Some (BlockStmt (Block 23 24 []))" emptySyntax
        "BlockStmt (Block 23 24 [])" 1] null
    by blast
  then have mem: "\<lparr>Start = 18, End = 22\<rparr>
      \<in> set (layers (addIfStmt (nullWalkers :: (unit, unit, unit) walkers)
          10 None () (Block 15 16 []) (Some (BlockStmt (Block 23 24 []))) emptySyntax) Keyword)"
    by (simp add: BlockStmt_End_def del: addIfStmt.simps)
  have run: "layers (addStmt (nullWalkers :: (unit, unit, unit) walkers)
        (Some (IfStmt 10 None () (Block 15 16 []) (Some (BlockStmt (Block 23 24 []))))) emptySyntax)
        Keyword
     = [\<lparr>Start = 10, End = 12\<rparr>, \<lparr>Start = 18, End = 22\<rparr>]"
    by (simp add: len_def BlockStmt_End_def nullWalkers_def add_def emptySyntax_def
        rainbowScope_def rainbowClose_def)
  from null mem run show ?thesis
    by (simp del: addIfStmt.simps addStmt.simps)
qed

text \<open>
  Claim C7, as the code has it. A statement of a kind that \<^verbatim>\<open>addStmt\<close> does not know
  is logged and no span is recorded for it. A \<^verbatim>\<open>BadStmt\<close>, the parser's node for
  malformed source, is a kind \<^verbatim>\<open>addStmt\<close> knows: it is recorded as a span of the
  category \<^verbatim>\<open>Bad\<close> from its start to its end, and nothing is logged. In both cases the
  loop over the statements of a block or clause goes on with the statements that follow.
\<close>

theorem unknown_stmt_logged_walk_continues:
  "addStmt w (Some (UnknownStmt ty)) s = s\<lparr>logged := logged s @ [''Error: Unknown stmt type: '' @ ty]\<rparr>
   \<and> layers (addStmt w (Some (UnknownStmt ty)) s) = layers s
   \<and> addStmt w (Some (BadStmt fromPos toPos)) s
     = s\<lparr>layers := (layers s)(Bad := layers s Bad @ [\<lparr>Start = fromPos, End = toPos\<rparr>])\<rparr>
   \<and> logged (addStmt w (Some (BadStmt fromPos toPos)) s) = logged s
   \<and> addStmts w (pre @ UnknownStmt ty # post) s
     = addStmts w post (logPrintf (''Error: Unknown stmt type: '' @ ty) (addStmts w pre s))
   \<and> addStmts w (pre @ BadStmt fromPos toPos # post) s
     = addStmts w post (addNode Bad fromPos toPos (addStmts w pre s))
   \<and> addBlockStmt w (Block lb rb (pre @ UnknownStmt ty # post)) s
     = rainbowClose (addStmts w post (logPrintf (''Error: Unknown stmt type: '' @ ty)
         (addStmts w pre (rainbowScope lb 1 rb 1 s))))"
  by (simp add: addStmts_append logPrintf_def addBadStmt_def addNode_def add_def)

theorem unknown_stmt_logged_walk_continues_witness:
  "addStmts (nullWalkers :: (unit, unit, unit) walkers)
      [ReturnStmt 3 [], UnknownStmt ''*ast.FooStmt'', ReturnStmt 20 []] emptySyntax
   = \<lparr>layers = (\<lambda>c. [])(Keyword := [\<lparr>Start = 3, End = 9\<rparr>, \<lparr>Start = 20, End = 26\<rparr>]),
      depth = 0, logged = [''Error: Unknown stmt type: *ast.FooStmt'']\<rparr>"
  using unknown_stmt_logged_walk_continues [of "nullWalkers :: (unit, unit, unit) walkers"
      "''*ast.FooStmt''" emptySyntax 0 0 "[ReturnStmt 3 []]" "[ReturnStmt 20 []]" 0 0]
  by (simp add: addReturnStmt_def len_def logPrintf_def add_def emptySyntax_def nullWalkers_def)

text \<open>
  A statement of an unknown kind leaves the \<^verbatim>\<open>Bad\<close> layer empty and writes one line to
  the log; a \<^verbatim>\<open>BadStmt\<close> adds a span to the \<^verbatim>\<open>Bad\<close> layer and writes no line.
\<close>

theorem unknown_stmt_no_bad_span_counterexample:
  "layers (addStmt (nullWalkers :: (unit, unit, unit) walkers)
      (Some (UnknownStmt ''*ast.FooStmt'')) emptySyntax) Bad = []
   \<and> logged (addStmt (nullWalkers :: (unit, unit, unit) walkers)
      (Some (UnknownStmt ''*ast.FooStmt'')) emptySyntax) = [''Error: Unknown stmt type: *ast.FooStmt'']
   \<and> layers (addStmt (nullWalkers :: (unit, unit, unit) walkers)
      (Some (BadStmt 5 9)) emptySyntax) Bad = [\<lparr>Start = 5, End = 9\<rparr>]
   \<and> logged (addStmt (nullWalkers :: (unit, unit, unit) walkers)
      (Some (BadStmt 5 9)) emptySyntax) = []"
  by (simp add: logPrintf_def addBadStmt_def addNode_def add_def emptySyntax_def)

section \<open>Properties of the reload gate\<close>

lemma filter_update_count:
  "i < length xs \<Longrightarrow>
     length (filter P (xs[i := y])) + (if P (xs ! i) then 1 else 0)
       = length (filter P xs) + (if P y then 1 else 0)"
proof (induction xs arbitrary: i)
  case Nil
  then show ?case by simp
next
  case (Cons x xs)
  show ?case
  proof (cases i)
    case 0
    then show ?thesis by simp
  next
    case (Suc j)
    with Cons.prems have "j < length xs" by simp
    from Cons.IH [OF this] Suc show ?thesis by simp
  qed
qed

lemma gateInv_init: "gateInv NewProjectTree"
  by (simp add: gateInv_def NewProjectTree_def inFlight_def)

lemma gateInv_spawn: "gateInv p \<Longrightarrow> gateInv (spawnUpdate p)"
  by (simp add: gateInv_def spawnUpdate_def inFlight_def)

lemma gateInv_update:
  assumes "gateInv p" and "update i p = Some p'"
  shows "gateInv p'"
proof -
  from assms(2) have i: "i < length (calls p)"
    by (auto simp: update_def split: if_splits)
  note cnt = filter_update_count [OF i, of holdsGate]
  show ?thesis
  proof (cases "calls p ! i")
    case AtSelect
    with assms i cnt [of Updating] cnt [of Returned] show ?thesis
      by (auto simp: update_def gateInv_def inFlight_def reloadLockCap_def split: if_splits)
  next
    case Updating
    with assms i cnt [of TocCheck] show ?thesis
      by (auto simp: update_def gateInv_def inFlight_def)
  next
    case TocCheck
    with assms i cnt [of Deferred] show ?thesis
      by (auto simp: update_def gateInv_def inFlight_def)
  next
    case Deferred
    with assms i cnt [of Returned] show ?thesis
      by (auto simp: update_def gateInv_def inFlight_def split: if_splits)
  next
    case Returned
    with assms i show ?thesis
      by (simp add: update_def)
  qed
qed

lemma reachable_gateInv: "reachable p \<Longrightarrow> gateInv p"
  by (induction rule: reachable.induct) (auto intro: gateInv_init gateInv_spawn gateInv_update)

lemma holder_counted:
  assumes "i < length xs" and "P (xs ! i)"
  shows "0 < length (filter P xs)"
proof -
  from assms have "xs ! i \<in> set (filter P xs)"
    by simp
  then have "filter P xs \<noteq> []"
    by (metis empty_iff list.set(1))
  then show ?thesis
    by simp
qed

text \<open>
  Claim C8. In every state the project tree can reach, at most one call of \<^verbatim>\<open>update\<close>
  is in flight, and the channel buffers exactly one value per call in flight. A call
  that reaches the \<^verbatim>\<open>select\<close> while a call is in flight takes the \<^verbatim>\<open>default\<close> case:
  its one step ends it and changes neither the channel nor any other call, so it is
  dropped, not queued. With no call in flight the send is taken. The deferred receive
  of the call in flight is never blocked and empties the channel, after which no call is
  in flight.
\<close>

theorem at_most_one_reload_in_flight:
  assumes "reachable p"
  shows "inFlight p \<le> 1 \<and> inFlight p = reloadLock p
    \<and> (\<forall>i<length (calls p). calls p ! i = AtSelect \<and> 0 < inFlight p \<longrightarrow>
          update i p = Some (p\<lparr>calls := (calls p)[i := Returned]\<rparr>))
    \<and> (\<forall>i<length (calls p). calls p ! i = AtSelect \<and> inFlight p = 0 \<longrightarrow>
          update i p = Some (p\<lparr>reloadLock := 1, calls := (calls p)[i := Updating]\<rparr>))
    \<and> (\<forall>i<length (calls p). calls p ! i = Deferred \<longrightarrow>
          update i p = Some (p\<lparr>reloadLock := 0, calls := (calls p)[i := Returned]\<rparr>)
          \<and> inFlight (p\<lparr>reloadLock := 0, calls := (calls p)[i := Returned]\<rparr>) = 0)"
proof -
  from reachable_gateInv [OF assms]
  have eq: "inFlight p = reloadLock p" and le: "reloadLock p \<le> 1"
    by (simp_all add: gateInv_def reloadLockCap_def)
  have drop: "update i p = Some (p\<lparr>calls := (calls p)[i := Returned]\<rparr>)"
    if "i < length (calls p)" "calls p ! i = AtSelect" "0 < inFlight p" for i
    using that eq le by (simp add: update_def reloadLockCap_def)
  have take: "update i p = Some (p\<lparr>reloadLock := 1, calls := (calls p)[i := Updating]\<rparr>)"
    if "i < length (calls p)" "calls p ! i = AtSelect" "inFlight p = 0" for i
    using that eq by (simp add: update_def reloadLockCap_def)
  have release: "update i p = Some (p\<lparr>reloadLock := 0, calls := (calls p)[i := Returned]\<rparr>)
      \<and> inFlight (p\<lparr>reloadLock := 0, calls := (calls p)[i := Returned]\<rparr>) = 0"
    if i: "i < length (calls p)" and d: "calls p ! i = Deferred" for i
  proof -
    from holder_counted [OF i, of holdsGate] d have "0 < inFlight p"
      by (simp add: inFlight_def)
    with eq le have one: "reloadLock p = 1"
      by simp
    with i d have u: "update i p = Some (p\<lparr>reloadLock := 0, calls := (calls p)[i := Returned]\<rparr>)"
      by (simp add: update_def)
    from gateInv_update [OF reachable_gateInv [OF assms] u] show ?thesis
      using u by (simp add: gateInv_def)
  qed
  from eq le drop take release show ?thesis
    by simp
qed

theorem at_most_one_reload_in_flight_witness:
  "reachable \<lparr>reloadLock = 0, calls = [AtSelect, AtSelect]\<rparr>
   \<and> update 0 \<lparr>reloadLock = 0, calls = [AtSelect, AtSelect]\<rparr>
       = Some \<lparr>reloadLock = 1, calls = [Updating, AtSelect]\<rparr>
   \<and> reachable \<lparr>reloadLock = 1, calls = [Updating, AtSelect]\<rparr>
   \<and> inFlight \<lparr>reloadLock = 1, calls = [Updating, AtSelect]\<rparr> = 1
   \<and> update 1 \<lparr>reloadLock = 1, calls = [Updating, AtSelect]\<rparr>
       = Some \<lparr>reloadLock = 1, calls = [Updating, Returned]\<rparr>
   \<and> reachable \<lparr>reloadLock = 1, calls = [Deferred, Returned]\<rparr>
   \<and> update 0 \<lparr>reloadLock = 1, calls = [Deferred, Returned]\<rparr>
       = Some \<lparr>reloadLock = 0, calls = [Returned, Returned]\<rparr>"
proof -
  have r0: "reachable \<lparr>reloadLock = 0, calls = [AtSelect, AtSelect]\<rparr>"
    using reachable.event [OF reachable.event [OF reachable.init]]
    by (simp add: spawnUpdate_def NewProjectTree_def)
  have f0: "inFlight \<lparr>reloadLock = 0, calls = [AtSelect, AtSelect]\<rparr> = 0"
    by (simp add: inFlight_def)
  from at_most_one_reload_in_flight [OF r0] f0
  have u0: "update 0 \<lparr>reloadLock = 0, calls = [AtSelect, AtSelect]\<rparr>
       = Some \<lparr>reloadLock = 1, calls = [Updating, AtSelect]\<rparr>"
    by simp
  have r1: "reachable \<lparr>reloadLock = 1, calls = [Updating, AtSelect]\<rparr>"
    by (rule reachable.step [OF r0 u0])
  have r2: "reachable \<lparr>reloadLock = 1, calls = [Updating, Returned]\<rparr>"
    by (rule reachable.step [OF r1, of 1]) (simp add: update_def reloadLockCap_def)
  have r3: "reachable \<lparr>reloadLock = 1, calls = [TocCheck, Returned]\<rparr>"
    by (rule reachable.step [OF r2, of 0]) (simp add: update_def)
  have r4: "reachable \<lparr>reloadLock = 1, calls = [Deferred, Returned]\<rparr>"
    by (rule reachable.step [OF r3, of 0]) (simp add: update_def)
  from at_most_one_reload_in_flight [OF r1]
  have "inFlight \<lparr>reloadLock = 1, calls = [Updating, AtSelect]\<rparr> = 1"
    and "update 1 \<lparr>reloadLock = 1, calls = [Updating, AtSelect]\<rparr>
       = Some \<lparr>reloadLock = 1, calls = [Updating, Returned]\<rparr>"
    by simp_all
  moreover from at_most_one_reload_in_flight [OF r4]
  have "update 0 \<lparr>reloadLock = 1, calls = [Deferred, Returned]\<rparr>
       = Some \<lparr>reloadLock = 0, calls = [Returned, Returned]\<rparr>"
    by simp
  ultimately show ?thesis
    using r0 u0 r1 r4 by simp
qed

end
